theory Spec2Isabelle
  imports Complex_Main "HOL-Library.AList"
begin

section \<open>Strings\<close>

text \<open>
  Python strings are modelled as \<open>string\<close>; a character stands for the code point of the
  same number, so the model covers text whose code points lie below 256. On these,
  \<open>is_space\<close> is \<open>str.isspace\<close> and \<open>is_numeric_digit\<close> is \<open>str.isdigit\<close>, both of
  which hold of some characters beyond ASCII; \<open>is_digit\<close> is the class \<open>[0-9]\<close> of a
  regular expression. \<open>lower\<close> and \<open>upper\<close> change the letters \<open>A\<close>..\<open>Z\<close> and
  \<open>a\<close>..\<open>z\<close> only. Python's \<open>lower\<close> maps no other character below 256 to an ASCII
  character, and its \<open>upper\<close> does so for the sharp s only, which becomes \<open>SS\<close>; the
  code searches a lowered string for words without capitals and an upper-cased string for
  \<open>ANNEX\<close> only, so the outcome of these searches is the same.
\<close>

definition ord :: "char \<Rightarrow> nat" where
  "ord c = of_char c"

definition chr :: "nat \<Rightarrow> char" where
  "chr n = char_of n"

definition is_upper :: "char \<Rightarrow> bool" where
  "is_upper c = (65 \<le> ord c \<and> ord c \<le> 90)"

definition is_lower :: "char \<Rightarrow> bool" where
  "is_lower c = (97 \<le> ord c \<and> ord c \<le> 122)"

definition is_digit :: "char \<Rightarrow> bool" where
  "is_digit c = (48 \<le> ord c \<and> ord c \<le> 57)"

definition is_space :: "char \<Rightarrow> bool" where
  \<comment> \<open>\<open>str.isspace\<close> on one character: TAB, LF, VT, FF, CR, FS, GS, RS, US, the blank, the
     next-line control U+0085 and the no-break space U+00A0\<close>
  "is_space c = ((9 \<le> ord c \<and> ord c \<le> 13)
                 \<or> (28 \<le> ord c \<and> ord c \<le> 32)
                 \<or> ord c = 133 \<or> ord c = 160)"

definition is_numeric_digit :: "char \<Rightarrow> bool" where
  \<comment> \<open>\<open>str.isdigit\<close> on one character: \<open>0\<close>..\<open>9\<close> and the superscripts two, three and one
     (U+00B2, U+00B3, U+00B9)\<close>
  "is_numeric_digit c = (is_digit c \<or> ord c = 178 \<or> ord c = 179 \<or> ord c = 185)"

definition lower_char :: "char \<Rightarrow> char" where
  "lower_char c = (if is_upper c then chr (ord c + 32) else c)"

definition upper_char :: "char \<Rightarrow> char" where
  "upper_char c = (if is_lower c then chr (ord c - 32) else c)"

definition lower :: "string \<Rightarrow> string" where
  "lower s = map lower_char s"

definition upper :: "string \<Rightarrow> string" where
  "upper s = map upper_char s"

definition startswith :: "string \<Rightarrow> string \<Rightarrow> bool" where
  "startswith s p = (take (length p) s = p)"

definition endswith :: "string \<Rightarrow> string \<Rightarrow> bool" where
  "endswith s p = (length p \<le> length s \<and> drop (length s - length p) s = p)"

fun contains :: "string \<Rightarrow> string \<Rightarrow> bool" where
  \<comment> \<open>\<open>contains s sub\<close> is Python's \<open>sub in s\<close>.\<close>
  "contains [] sub = (sub = [])"
| "contains (c # cs) sub = (startswith (c # cs) sub \<or> contains cs sub)"

definition strip :: "string \<Rightarrow> string" where
  \<comment> \<open>\<open>str.strip()\<close>: the white space at both ends is removed\<close>
  "strip s = rev (dropWhile is_space (rev (dropWhile is_space s)))"

definition isdigit :: "string \<Rightarrow> bool" where
  "isdigit s = (s \<noteq> [] \<and> list_all is_numeric_digit s)"

fun str_nat :: "nat \<Rightarrow> string" where
  \<comment> \<open>\<open>str(n)\<close> for a non-negative integer.\<close>
  "str_nat n = (if n < 10 then [chr (48 + n)]
                else str_nat (n div 10) @ [chr (48 + n mod 10)])"

declare str_nat.simps [simp del]

section \<open>Task records (models.py)\<close>

type_synonym datetime = nat

record TaskStatus =
  task_id :: string
  status :: string
  progress :: real
  message :: "string option"
  result_path :: "string option"
  intermediate_path :: "string option"
  created_at :: datetime
  updated_at :: datetime

type_synonym task_store = "string \<rightharpoonup> TaskStatus"

datatype HTTPException = HTTPException (status_code: nat) (detail: string)

section \<open>Cancellation and status queries (api.py)\<close>

text \<open>
  An endpoint returns its response, or the exception it raises, together with the task
  store it leaves behind. \<open>cancel_task\<close> takes the reading of \<open>datetime.now()\<close> as an
  argument.
\<close>

definition get_analysis_status :: "string \<Rightarrow> task_store \<Rightarrow> HTTPException + TaskStatus" where
  "get_analysis_status tid store =
     (case store tid of
        None \<Rightarrow> Inl (HTTPException 404 ''Task not found'')
      | Some task_status \<Rightarrow> Inr task_status)"

definition cancel_task ::
  "datetime \<Rightarrow> string \<Rightarrow> task_store \<Rightarrow> (HTTPException + string) \<times> task_store" where
  "cancel_task now tid store =
     (case store tid of
        None \<Rightarrow> (Inl (HTTPException 404 ''Task not found''), store)
      | Some task_status \<Rightarrow>
          if status task_status \<in> set [''completed'', ''failed'']
          then (Inl (HTTPException 400 ''Cannot cancel a completed or failed task''), store)
          else (Inr ''Task cancelled successfully'',
                store(tid \<mapsto> task_status\<lparr>status := ''cancelled'',
                                          message := Some ''Task cancelled by user'',
                                          updated_at := now\<rparr>)))"

section \<open>Result records (models.py)\<close>

text \<open>
  The field \<open>priority\<close> of a control and the two time stamps of an analysis result carry a
  prefix here, since record fields share one name space.
\<close>

record ControlSuggestion =
  control_priority :: string
  control_title :: string
  control :: string

record ComplianceRequirement =
  requirement_title :: string
  article_number :: string
  priority :: string
  article_text :: string
  requirement :: string
  requirement_description :: string
  controls :: "ControlSuggestion list"

record AnalysisResult =
  document_name :: string
  total_chunks :: nat
  processed_chunks :: nat
  requirements_found :: nat
  extracted_data :: "ComplianceRequirement list"
  processing_status :: string
  error_message :: "string option"
  result_created_at :: datetime
  result_updated_at :: datetime

section \<open>The application state and its environment (api.py)\<close>

text \<open>
  Besides the task store, a request touches the files of the working directory (kept as the
  set of paths that exist), the queue of background tasks, the upload stream and the
  extraction pipeline; the last two are recorded as events. What a request cannot compute
  by itself is its environment: the fresh \<open>uuid4\<close>, the clock, the exception (if any) raised
  while the upload is saved or the result file is dumped, and what
  \<open>orchestrate_compliance_analysis\<close> does on the saved document: it returns the validated
  requirements (\<open>Inr\<close>) or raises (\<open>Inl\<close>, with the text of the exception).
  The size in MB is the length of the content divided by \<open>1024 * 1024\<close>; binary floating
  point carries out this division by a power of two exactly, so the quotient is a real number
  here.
\<close>

datatype event = ReadUpload | RunPipeline string string

record app_state =
  tasks :: task_store
  files :: "string set"
  background_tasks :: "(string \<times> string \<times> string) list"
  events :: "event list"

record environment =
  uuid4 :: string
  clock :: datetime
  timestamp :: string
  save_error :: "string option"
  pipeline_outcome :: "string + ComplianceRequirement list"
  dump_error :: "string option"

record UploadFile =
  filename :: string
  content :: string

datatype analyze_response =
    Completed string AnalysisResult
  | Queued string string

definition remove_file :: "string \<Rightarrow> app_state \<Rightarrow> app_state" where
  \<comment> \<open>\<open>if os.path.exists(p): os.remove(p)\<close>\<close>
  "remove_file p st = st\<lparr>files := files st - {p}\<rparr>"

definition sync_result :: "datetime \<Rightarrow> string \<Rightarrow> ComplianceRequirement list \<Rightarrow> AnalysisResult" where
  "sync_result now name llm_result =
     \<lparr>document_name = name, total_chunks = 0, processed_chunks = length llm_result,
      requirements_found = length llm_result, extracted_data = llm_result,
      processing_status = ''completed'', error_message = None,
      result_created_at = now, result_updated_at = now\<rparr>"

definition analyze_pdf ::
  "environment \<Rightarrow> UploadFile \<Rightarrow> app_state \<Rightarrow> (HTTPException + analyze_response) \<times> app_state" where
  "analyze_pdf env file st =
     (if \<not> endswith (lower (filename file)) ''.pdf''
      then (Inl (HTTPException 400 ''File must be a PDF''), st)
      else
        let st1 = st\<lparr>events := events st @ [ReadUpload]\<rparr>;
            file_size_mb = real (length (content file)) / (1024 * 1024);
            sync_processing = (file_size_mb < 5.0);
            task_id = uuid4 env;
            temp_path = ''temp_'' @ task_id @ ''.pdf''
        in case save_error env of
             Some e \<Rightarrow> (Inl (HTTPException 500 (''Failed to save file: '' @ e)), st1)
           | None \<Rightarrow>
               let st2 = st1\<lparr>files := insert temp_path (files st1)\<rparr> in
               if sync_processing then
                 let intermediate_filename = ''intermediate_'' @ timestamp env @ ''.json'';
                     st3 = st2\<lparr>events := events st2 @ [RunPipeline temp_path intermediate_filename]\<rparr>
                 in case pipeline_outcome env of
                      Inl e \<Rightarrow>
                        (Inl (HTTPException 500 (''Analysis failed: '' @ e)), remove_file temp_path st3)
                    | Inr llm_result \<Rightarrow>
                        (case dump_error env of
                           Some e \<Rightarrow>
                             (Inl (HTTPException 500 (''Analysis failed: '' @ e)),
                              remove_file temp_path st3)
                         | None \<Rightarrow>
                             (Inr (Completed (''Analysis completed for '' @ filename file)
                                     (sync_result (clock env) (filename file) llm_result)),
                              remove_file temp_path
                                (st3\<lparr>files := insert (''results_'' @ task_id @ ''.json'') (files st3)\<rparr>)))
               else
                 (Inr (Queued task_id
                         (''Analysis queued for large file. Use /status/'' @ task_id
                            @ '' to check progress.'')),
                  st2\<lparr>tasks := (tasks st2)(task_id \<mapsto>
                          \<lparr>task_id = task_id, status = ''pending'', progress = 0.0,
                           message = Some ''Analysis queued (large file)'',
                           result_path = None, intermediate_path = None,
                           created_at = clock env, updated_at = clock env\<rparr>),
                       background_tasks :=
                         background_tasks st2 @ [(task_id, temp_path, filename file)]\<rparr>))"

section \<open>The background task (api.py, process_pdf_analysis)\<close>

text \<open>
  The background task runs beside the request handlers, so it is split where another
  request can come in between: \<open>begin_analysis\<close> is the code up to the call of the
  pipeline, \<open>finish_analysis\<close> the code after the pipeline has returned or raised.
  \<open>task_status = task_store[task_id]\<close> raises KeyError for an unknown id, before the
  \<open>try\<close>; that is the result \<open>None\<close>. \<open>result[0]\<close> raises IndexError on an empty list,
  inside the \<open>try\<close>.
\<close>

definition begin_analysis :: "datetime \<Rightarrow> string \<Rightarrow> app_state \<Rightarrow> app_state option" where
  "begin_analysis now tid st =
     (case tasks st tid of
        None \<Rightarrow> None
      | Some task_status \<Rightarrow>
          Some (st\<lparr>tasks := (tasks st)(tid \<mapsto>
                  task_status\<lparr>status := ''processing'',
                              message := Some ''Loading and analyzing document'',
                              progress := 0.1, updated_at := now\<rparr>)\<rparr>))"

definition async_result ::
  "datetime \<Rightarrow> string \<Rightarrow> ComplianceRequirement list \<Rightarrow> string + AnalysisResult" where
  "async_result now name result =
     (case result of
        [] \<Rightarrow> Inl ''list index out of range''
      | r # rs \<Rightarrow>
          Inr \<lparr>document_name = name, total_chunks = 0, processed_chunks = length result,
               requirements_found = length result, extracted_data = result,
               processing_status = ''completed'', error_message = None,
               result_created_at = now, result_updated_at = now\<rparr>)"

definition mark_failed :: "datetime \<Rightarrow> string \<Rightarrow> string \<Rightarrow> string \<Rightarrow> app_state \<Rightarrow> app_state" where
  \<comment> \<open>the \<open>except\<close> branch\<close>
  "mark_failed now tid pdf_path e st =
     remove_file pdf_path
       (case tasks st tid of
          None \<Rightarrow> st
        | Some task_status \<Rightarrow>
            st\<lparr>tasks := (tasks st)(tid \<mapsto>
                 task_status\<lparr>status := ''failed'', message := Some (''Analysis failed: '' @ e),
                             updated_at := now\<rparr>)\<rparr>)"

definition finish_analysis ::
  "environment \<Rightarrow> string \<Rightarrow> string \<Rightarrow> string \<Rightarrow> app_state \<Rightarrow> app_state" where
  "finish_analysis env tid pdf_path original_filename st =
     (let intermediate_filename = ''intermediate_'' @ timestamp env @ ''.json'';
          final_filename = ''results_'' @ tid @ ''.json''
      in case pipeline_outcome env of
           Inl e \<Rightarrow> mark_failed (clock env) tid pdf_path e st
         | Inr result \<Rightarrow>
             (case async_result (clock env) original_filename result of
                Inl e \<Rightarrow> mark_failed (clock env) tid pdf_path e st
              | Inr analysis_result \<Rightarrow>
                  (case dump_error env of
                     Some e \<Rightarrow> mark_failed (clock env) tid pdf_path e st
                   | None \<Rightarrow>
                       let st1 = st\<lparr>files := insert final_filename (files st)\<rparr> in
                       remove_file pdf_path
                         (case tasks st1 tid of
                            None \<Rightarrow> st1
                          | Some task_status \<Rightarrow>
                              st1\<lparr>tasks := (tasks st1)(tid \<mapsto>
                                   task_status\<lparr>status := ''completed'', progress := 1.0,
                                     message := Some (''Analysis completed. Found ''
                                        @ str_nat (length result) @ '' requirements.''),
                                     result_path := Some final_filename,
                                     intermediate_path := Some intermediate_filename,
                                     updated_at := clock env\<rparr>)\<rparr>))))"

definition process_pdf_analysis ::
  "environment \<Rightarrow> string \<Rightarrow> string \<Rightarrow> string \<Rightarrow> app_state \<Rightarrow> app_state option" where
  \<comment> \<open>a run of the background task that no request interrupts\<close>
  "process_pdf_analysis env tid pdf_path original_filename st =
     (case begin_analysis (clock env) tid st of
        None \<Rightarrow> None
      | Some st1 \<Rightarrow>
          Some (finish_analysis env tid pdf_path original_filename
                  (st1\<lparr>events := events st1
                     @ [RunPipeline pdf_path (''intermediate_'' @ timestamp env @ ''.json'')]\<rparr>)))"

definition run_background_task ::
  "environment \<Rightarrow> string \<times> string \<times> string \<Rightarrow> app_state \<Rightarrow> app_state option" where
  \<comment> \<open>\<open>background_tasks.add_task(process_pdf_analysis, task_id, temp_path, file.filename)\<close>:
     what is queued is a call of \<open>process_pdf_analysis\<close> with these arguments\<close>
  "run_background_task env job st =
     (case job of (tid, pdf_path, original_filename) \<Rightarrow>
        process_pdf_analysis env tid pdf_path original_filename st)"

section \<open>The service as a transition system\<close>


record system =
  app :: app_state
  running :: "string \<rightharpoonup> string \<times> string \<times> string"




definition initial_system :: system where
  "initial_system =
     \<lparr>app = \<lparr>tasks = Map.empty, files = {}, background_tasks = [], events = []\<rparr>,
      running = Map.empty\<rparr>"

definition consistent :: "system \<Rightarrow> bool" where
  \<comment> \<open>every queued or running call belongs to one task, which is not completed or failed\<close>
  "consistent s =
     (distinct (map fst (background_tasks (app s)))
      \<and> (\<forall>tid \<in> set (map fst (background_tasks (app s))). running s tid = None)
      \<and> (\<forall>tid. tid \<in> set (map fst (background_tasks (app s))) \<or> running s tid \<noteq> None \<longrightarrow>
            (\<exists>t. tasks (app s) tid = Some t
                 \<and> status t \<noteq> ''completed'' \<and> status t \<noteq> ''failed'')))"

section \<open>Section numbers (document_loader.py, extract_section_num)\<close>

text \<open>
  \<open>re.search(r'^([0-9]+(?:\.[0-9]+)*)', section_id)\<close>: the leading digits, then, as often
  as possible, a period followed by at least one digit. Nothing follows the group in the
  pattern, so the greedy choice is the match. \<open>dotted_groups\<close> is the starred group.
\<close>

function dotted_groups :: "string \<Rightarrow> string" where
  "dotted_groups [] = []"
| "dotted_groups (c # cs) =
     (if c = CHR ''.'' \<and> takeWhile is_digit cs \<noteq> []
      then c # takeWhile is_digit cs @ dotted_groups (dropWhile is_digit cs)
      else [])"
  by pat_completeness auto
termination
  by (relation "measure length") (auto simp: le_imp_less_Suc length_dropWhile_le)

definition extract_section_num :: "string \<Rightarrow> string option" where
  "extract_section_num section_id =
     (if takeWhile is_digit section_id = [] then None
      else Some (takeWhile is_digit section_id @ dotted_groups (dropWhile is_digit section_id)))"

text \<open>
  The pattern read as a language, for comparison: \<open>section_number\<close> holds of the strings
  of the form digits, period, digits, ..., digits, and \<open>token_ends rest\<close> says that
  \<open>rest\<close> cannot continue such a string: it starts neither with a digit nor with a period
  and a digit.
\<close>

inductive section_number :: "string \<Rightarrow> bool" where
  digits: "ds \<noteq> [] \<Longrightarrow> list_all is_digit ds \<Longrightarrow> section_number ds"
| dotted: "section_number s \<Longrightarrow> ds \<noteq> [] \<Longrightarrow> list_all is_digit ds
             \<Longrightarrow> section_number (s @ CHR ''.'' # ds)"

definition leading_token :: "string \<Rightarrow> string" where
  \<comment> \<open>the greedy match, when there is one\<close>
  "leading_token x = takeWhile is_digit x @ dotted_groups (dropWhile is_digit x)"

fun token_ends :: "string \<Rightarrow> bool" where
  "token_ends [] = True"
| "token_ends [c] = (\<not> is_digit c)"
| "token_ends (c # d # rest) = (\<not> is_digit c \<and> \<not> (c = CHR ''.'' \<and> is_digit d))"

section \<open>The extraction stage (extractor.py)\<close>

text \<open>
  What the inference chains return is parsed JSON of any shape. A JSON object is kept as an
  association list in insertion order, as a Python dict is. A call of a chain returns a
  value or raises. Numbers are integers here; no property below reads one.
\<close>

datatype json =
    JNull | JBool bool | JNum int | JStr string | JList "json list" | JDict "(string \<times> json) list"

type_synonym dict = "(string \<times> json) list"

datatype outcome = Raises string | Returns json

record Document =
  page_content :: string
  section_id :: "string option"
  doc_type :: "string option"

type_synonym req_chain = "string \<times> string \<times> string \<Rightarrow> outcome"
type_synonym ctrl_chain = "json \<Rightarrow> outcome"

definition section_num_of :: "Document \<Rightarrow> string" where
  \<comment> \<open>\<open>extract_section_num(section_id) or section_id\<close>, after
     \<open>section_id = chunk.metadata.get('section_id', 'unknown')\<close>\<close>
  "section_num_of chunk =
     (let sid = (case section_id chunk of Some s \<Rightarrow> s | None \<Rightarrow> ''unknown'')
      in case extract_section_num sid of
           None \<Rightarrow> sid
         | Some m \<Rightarrow> if m = [] then sid else m)"

fun override_fields :: "string \<Rightarrow> string \<Rightarrow> json list \<Rightarrow> dict list option" where
  \<comment> \<open>the loop \<open>for req in raw_output\<close>; an item that is no dict makes the item assignment
     raise TypeError, which is \<open>None\<close>\<close>
  "override_fields num text [] = Some []"
| "override_fields num text (JDict req # rest) =
     (case override_fields num text rest of
        None \<Rightarrow> None
      | Some reqs \<Rightarrow>
          Some (AList.update ''article_text'' (JStr text)
                  (AList.update ''article_number'' (JStr num) req) # reqs))"
| "override_fields num text (other # rest) = None"

definition extract_requirements_from_chunk :: "req_chain \<Rightarrow> Document \<Rightarrow> string \<Rightarrow> dict list" where
  "extract_requirements_from_chunk chain chunk doc_name =
     (case chain (doc_name, section_num_of chunk, page_content chunk) of
        Raises e \<Rightarrow> []
      | Returns (JList raw_output) \<Rightarrow>
          (case override_fields (section_num_of chunk) (page_content chunk) raw_output of
             None \<Rightarrow> []
           | Some reqs \<Rightarrow> reqs)
      | Returns other \<Rightarrow> [])"

definition extract_controls_for_requirement :: "ctrl_chain \<Rightarrow> dict \<Rightarrow> json list" where
  \<comment> \<open>the warning of the non-list branch may itself raise (slicing a value that is no
     string); that is caught too and gives the same empty list\<close>
  "extract_controls_for_requirement chain requirement_dict =
     (case chain (case map_of requirement_dict ''requirement'' of
                    Some v \<Rightarrow> v | None \<Rightarrow> JStr []) of
        Raises e \<Rightarrow> []
      | Returns (JList raw_output) \<Rightarrow> raw_output
      | Returns other \<Rightarrow> [])"

definition process_chunk ::
  "nat \<Rightarrow> Document \<Rightarrow> req_chain \<Rightarrow> ctrl_chain \<Rightarrow> string \<Rightarrow> nat \<times> dict list" where
  "process_chunk i chunk rchain cchain doc_name =
     (i, map (\<lambda>req. AList.update ''controls''
                       (JList (extract_controls_for_requirement cchain req)) req)
           (extract_requirements_from_chunk rchain chunk doc_name))"

section \<open>Validation (models.py, ComplianceRequirement.model_validate)\<close>

text \<open>
  A field declared \<open>str\<close> accepts a JSON string only, every field but \<open>controls\<close> is
  required, keys that the model does not declare are ignored, and \<open>controls\<close> is a list
  whose items each validate as a control. \<open>None\<close> is the ValidationError.
\<close>

definition get_str :: "dict \<Rightarrow> string \<Rightarrow> string option" where
  "get_str d k = (case map_of d k of Some (JStr s) \<Rightarrow> Some s | _ \<Rightarrow> None)"

definition validate_control :: "json \<Rightarrow> ControlSuggestion option" where
  "validate_control j =
     (case j of
        JDict d \<Rightarrow>
          (case (get_str d ''priority'', get_str d ''control_title'', get_str d ''control'') of
             (Some p, Some t, Some c) \<Rightarrow>
               Some \<lparr>control_priority = p, control_title = t, control = c\<rparr>
           | _ \<Rightarrow> None)
      | _ \<Rightarrow> None)"

fun validate_controls :: "json list \<Rightarrow> ControlSuggestion list option" where
  "validate_controls [] = Some []"
| "validate_controls (j # js) =
     (case validate_control j of
        None \<Rightarrow> None
      | Some c \<Rightarrow> (case validate_controls js of None \<Rightarrow> None | Some cs \<Rightarrow> Some (c # cs)))"

definition model_validate :: "dict \<Rightarrow> ComplianceRequirement option" where
  "model_validate d =
     (case (get_str d ''requirement_title'', get_str d ''article_number'', get_str d ''priority'',
            get_str d ''article_text'', get_str d ''requirement'',
            get_str d ''requirement_description'',
            (case map_of d ''controls'' of
               None \<Rightarrow> Some []
             | Some (JList js) \<Rightarrow> validate_controls js
             | Some _ \<Rightarrow> None)) of
        (Some t, Some n, Some p, Some x, Some r, Some ds, Some cs) \<Rightarrow>
          Some \<lparr>requirement_title = t, article_number = n, priority = p, article_text = x,
                requirement = r, requirement_description = ds, controls = cs\<rparr>
      | _ \<Rightarrow> None)"

definition validate_all :: "dict list \<Rightarrow> ComplianceRequirement list" where
  \<comment> \<open>the loop body of the final pass: append the validated record, or skip it\<close>
  "validate_all reqs = List.map_filter model_validate reqs"

section \<open>The orchestrator (extractor.py, orchestrate_compliance_analysis)\<close>

text \<open>
  One future per chunk is submitted; \<open>as_completed\<close> hands the futures back one by one, each
  once, in the order in which they finish. That order is the argument \<open>order\<close>: the list of
  the chunk indices in completion order, a permutation of \<open>0, ..., n - 1\<close>. The inference
  chains are functions of their payload. The dict \<open>results\<close> is an association list in
  insertion order, which is the completion order; the intermediate file holds the last
  snapshot written, if any.
\<close>

record run_state =
  results :: "(nat \<times> dict list) list"
  intermediate_file :: "dict list option"

definition flatten :: "(nat \<times> dict list) list \<Rightarrow> dict list" where
  \<comment> \<open>\<open>[item for idx in sorted(results.keys()) for item in results[idx]]\<close>\<close>
  "flatten rs =
     concat (map (\<lambda>idx. case map_of rs idx of Some items \<Rightarrow> items | None \<Rightarrow> [])
               (sort (map fst rs)))"

definition record_completion :: "nat \<times> dict list \<Rightarrow> run_state \<Rightarrow> run_state" where
  \<comment> \<open>the body of the loop over the completed futures\<close>
  "record_completion fut s =
     (let rs = AList.update (fst fut) (snd fut) (results s)
      in \<lparr>results = rs, intermediate_file = Some (flatten rs)\<rparr>)"

definition submit_all ::
  "Document list \<Rightarrow> req_chain \<Rightarrow> ctrl_chain \<Rightarrow> string \<Rightarrow> (nat \<times> dict list) list" where
  "submit_all chunks rchain cchain doc_name =
     map (\<lambda>(i, chunk). process_chunk i chunk rchain cchain doc_name) (enumerate 0 chunks)"

definition as_completed :: "(nat \<times> dict list) list \<Rightarrow> nat list \<Rightarrow> (nat \<times> dict list) list" where
  "as_completed futures order = map (\<lambda>k. futures ! k) order"

definition run_pool ::
  "string \<Rightarrow> Document list \<Rightarrow> req_chain \<Rightarrow> ctrl_chain \<Rightarrow> nat list \<Rightarrow> run_state" where
  "run_pool doc_name chunks rchain cchain order =
     fold record_completion (as_completed (submit_all chunks rchain cchain doc_name) order)
       \<lparr>results = [], intermediate_file = None\<rparr>"

definition orchestrate_compliance_analysis ::
  "string \<Rightarrow> Document list \<Rightarrow> req_chain \<Rightarrow> ctrl_chain \<Rightarrow> nat list
     \<Rightarrow> ComplianceRequirement list \<times> dict list option" where
  \<comment> \<open>the returned list, and the content of the intermediate file at the return\<close>
  "orchestrate_compliance_analysis doc_name chunks rchain cchain order =
     (let s = run_pool doc_name chunks rchain cchain order
      in (concat (map (\<lambda>idx. validate_all
                         (case map_of (results s) idx of Some items \<Rightarrow> items | None \<Rightarrow> []))
                    (sort (map fst (results s)))),
          intermediate_file s))"

definition orchestrate_compliance_analysis_script ::
  "string \<Rightarrow> Document list \<Rightarrow> req_chain \<Rightarrow> ctrl_chain \<Rightarrow> nat list
     \<Rightarrow> dict list \<times> dict list option" where
  \<comment> \<open>the same loop in the one-file script compliance_agent.py, which returns the flattened
     records as they are\<close>
  "orchestrate_compliance_analysis_script doc_name chunks rchain cchain order =
     (let s = run_pool doc_name chunks rchain cchain order
      in (flatten (results s), intermediate_file s))"

definition extract_segment ::
  "string \<Rightarrow> req_chain \<Rightarrow> ctrl_chain \<Rightarrow> nat \<Rightarrow> Document
     \<Rightarrow> ComplianceRequirement list" where
  \<comment> \<open>the requirements of one segment: what its worker returns, validated\<close>
  "extract_segment doc_name rchain cchain i chunk =
     validate_all (snd (process_chunk i chunk rchain cchain doc_name))"

section \<open>Segment labels (document_loader.py)\<close>


definition first_line :: "string \<Rightarrow> string" where
  \<comment> \<open>\<open>chunk.page_content.split('\n')[0].strip()\<close>; the list of lines is never empty\<close>
  "first_line text = strip (takeWhile (\<lambda>c. c \<noteq> CHR 0x0A) text)"

definition numbered :: "string \<Rightarrow> bool" where
  \<comment> \<open>\<open>any(first_line.startswith(f"{j}.") for j in range(1, 50))\<close>\<close>
  "numbered line = list_ex (\<lambda>j. startswith line (str_nat j @ ''.'')) [1..<50]"

definition dpdp_section_line :: "string \<Rightarrow> bool" where
  \<comment> \<open>\<open>any(f"sect" in first_line.lower() or f"sec. " in first_line for f in ["SEC", "Sect"])\<close>\<close>
  "dpdp_section_line line =
     list_ex (\<lambda>f. contains (lower line) ''sect'' \<or> contains line ''sec. '') [''SEC'', ''Sect'']"

definition assign_section_id :: "string \<Rightarrow> nat \<Rightarrow> string \<Rightarrow> string" where
  "assign_section_id dtype i text =
     (if dtype = ''DPDP'' \<and> dpdp_section_line (first_line text)
      then ''Section_'' @ str_nat (i + 1)
      else if numbered (first_line text) \<or> isdigit (first_line text)
              \<or> contains (upper (first_line text)) ''ANNEX''
      then first_line text
      else ''section_'' @ str_nat (i + 1))"

definition label_chunks :: "string \<Rightarrow> Document list \<Rightarrow> Document list" where
  \<comment> \<open>the loop \<open>for i, chunk in enumerate(chunks)\<close> of \<open>load_and_chunk_pdf\<close>\<close>
  "label_chunks dtype chunks =
     map (\<lambda>(i, chunk). chunk\<lparr>section_id := Some (assign_section_id dtype i (page_content chunk)),
                               doc_type := Some dtype\<rparr>)
       (enumerate 0 chunks)"

section \<open>Example data\<close>

definition example_task :: "string \<Rightarrow> TaskStatus" where
  "example_task st = \<lparr>task_id = ''t1'', status = st, progress = 0.1,
                       message = Some ''Loading and analyzing document'',
                       result_path = None, intermediate_path = None,
                       created_at = 5, updated_at = 6\<rparr>"

definition example_store :: "string \<Rightarrow> task_store" where
  "example_store st = [''t1'' \<mapsto> example_task st, ''t2'' \<mapsto> (example_task ''pending'')\<lparr>task_id := ''t2''\<rparr>]"

definition example_state :: "string \<Rightarrow> app_state" where
  "example_state st = \<lparr>tasks = example_store st, files = {''temp_t1.pdf'', ''temp_t2.pdf''},
                        background_tasks = [(''t2'', ''temp_t2.pdf'', ''big.pdf'')], events = []\<rparr>"


definition example_requirement :: ComplianceRequirement where
  "example_requirement =
     \<lparr>requirement_title = ''Access control'', article_number = ''6.1.2'', priority = ''high'',
      article_text = ''6.1.2 The organization shall control access.'',
      requirement = ''The organization shall control access.'',
      requirement_description = ''Access is to be controlled.'', controls = []\<rparr>"

definition example_env :: "string + ComplianceRequirement list \<Rightarrow> environment" where
  "example_env outcome =
     \<lparr>uuid4 = ''t3'', clock = 20, timestamp = ''2025-01-01_00-00-00'', save_error = None,
      pipeline_outcome = outcome, dump_error = None\<rparr>"

definition example_upload :: "string \<Rightarrow> nat \<Rightarrow> UploadFile" where
  "example_upload name n = \<lparr>filename = name, content = replicate n (CHR ''x'')\<rparr>"

definition piece :: "string \<Rightarrow> Document" where
  "piece text = \<lparr>page_content = text, section_id = None, doc_type = None\<rparr>"

definition example_chunks :: "Document list" where
  "example_chunks =
     label_chunks ''ISO''
       [piece (''6.1.2 Determining risks'' @ [CHR 0x0A]
                 @ ''The organization shall determine the risks.''),
        piece ''The organization should consider context.'',
        piece (''7. Support'' @ [CHR 0x0A] @ ''Resources shall be provided.'')]"

definition example_req_chain :: req_chain where
  \<comment> \<open>the service fails on the section \<open>section_2\<close> and otherwise reports one complete
     record, with an article number of its own\<close>
  "example_req_chain payload =
     (case payload of (doc_name, num, body) \<Rightarrow>
        if num = ''section_2'' then Raises ''connection reset''
        else Returns (JList [JDict
               [(''requirement_title'', JStr (''Requirement of '' @ num)),
                (''article_number'', JStr ''Article 99''),
                (''priority'', JStr ''high''),
                (''requirement'', JStr ''The organization shall comply.''),
                (''requirement_description'', JStr ''Compliance is mandatory.'')]]))"

definition sloppy_req_chain :: req_chain where
  \<comment> \<open>the service reports a record that lacks the priority and the description\<close>
  "sloppy_req_chain payload =
     Returns (JList [JDict [(''requirement_title'', JStr ''Untitled''),
                           (''requirement'', JStr ''The organization shall comply.'')]])"

definition failing_req_chain :: req_chain where
  "failing_req_chain payload = Raises ''connection reset''"

definition example_ctrl_chain :: ctrl_chain where
  "example_ctrl_chain requirement_text =
     Returns (JList [JDict [(''priority'', JStr ''medium''),
                           (''control_title'', JStr ''Review''),
                           (''control'', JStr ''Review the requirement yearly.'')]])"




section \<open>Properties of cancellation\<close>

text \<open>
  C10. A successful cancel changes only the status, message and updated_at fields of the
  targeted record: its task_id, progress, result_path, intermediate_path and created_at are
  unchanged, and every other record of the task store is unchanged.
\<close>

theorem cancel_task_frame:
  assumes "cancel_task now tid store = (Inr msg, store')"
  shows "\<exists>t t'. store tid = Some t \<and> store' tid = Some t'
           \<and> task_id t' = task_id t \<and> progress t' = progress t
           \<and> result_path t' = result_path t \<and> intermediate_path t' = intermediate_path t
           \<and> created_at t' = created_at t
           \<and> t' = t\<lparr>status := status t', message := message t', updated_at := updated_at t'\<rparr>
           \<and> (\<forall>other. other \<noteq> tid \<longrightarrow> store' other = store other)"
  using assms
  by (auto simp: cancel_task_def split: option.splits if_splits)

theorem cancel_task_frame_witness:
  "\<exists>store'. cancel_task 9 ''t1'' (example_store ''processing'') = (Inr ''Task cancelled successfully'', store')
     \<and> (\<exists>t'. store' ''t1'' = Some t' \<and> progress t' = 0.1 \<and> created_at t' = 5 \<and> task_id t' = ''t1'')
     \<and> store' ''t2'' = example_store ''processing'' ''t2''"
proof -
  obtain store' where c: "cancel_task 9 ''t1'' (example_store ''processing'') = (Inr ''Task cancelled successfully'', store')"
    by (simp add: cancel_task_def example_store_def example_task_def)
  from cancel_task_frame [OF c] c show ?thesis
    by (auto simp: example_store_def example_task_def)
qed

text \<open>
  C4, as the specification states it: cancel succeeds if and only if the task exists and its
  status is pending or processing, fails with InvalidState on completed, failed and
  cancelled, and succeeds exactly once. The guard of \<open>cancel_task\<close> names completed and
  failed only, so cancelling a cancelled task succeeds again.
\<close>

theorem cancel_cancelled_task_succeeds:
  "example_store ''cancelled'' ''t1'' = Some (example_task ''cancelled'')
   \<and> status (example_task ''cancelled'') = ''cancelled''
   \<and> fst (cancel_task 9 ''t1'' (example_store ''cancelled'')) = Inr ''Task cancelled successfully''"
  by (simp add: cancel_task_def example_store_def example_task_def)

text \<open>
  C4, amended. Cancel succeeds (setting status cancelled, the user message and updated_at)
  if and only if the task exists and its status is neither completed nor failed. It raises
  404 for an unknown id and 400 for a completed or failed task, and leaves the store as it
  was in both cases. After a successful cancel, a further cancel of the same task succeeds
  again and the status stays cancelled.
\<close>

theorem cancel_task_succeeds_iff:
  "((\<exists>msg. fst (cancel_task now tid store) = Inr msg)
      \<longleftrightarrow> (\<exists>t. store tid = Some t \<and> status t \<noteq> ''completed'' \<and> status t \<noteq> ''failed''))
   \<and> (store tid = None \<longrightarrow>
         cancel_task now tid store = (Inl (HTTPException 404 ''Task not found''), store))
   \<and> (\<forall>t. store tid = Some t \<and> (status t = ''completed'' \<or> status t = ''failed'') \<longrightarrow>
         cancel_task now tid store
           = (Inl (HTTPException 400 ''Cannot cancel a completed or failed task''), store))
   \<and> (\<forall>msg store'. cancel_task now tid store = (Inr msg, store') \<longrightarrow>
         (\<exists>t'. store' tid = Some t' \<and> status t' = ''cancelled''
               \<and> message t' = Some ''Task cancelled by user'' \<and> updated_at t' = now)
         \<and> (\<forall>now'. \<exists>store''. cancel_task now' tid store' = (Inr msg, store'')
               \<and> map_option status (store'' tid) = Some ''cancelled''))"
  by (auto simp: cancel_task_def split: option.splits if_splits)

theorem cancel_task_succeeds_iff_witness:
  "fst (cancel_task 9 ''t1'' (example_store ''pending'')) = Inr ''Task cancelled successfully''
   \<and> cancel_task 9 ''t1'' (example_store ''failed'')
       = (Inl (HTTPException 400 ''Cannot cancel a completed or failed task''), example_store ''failed'')
   \<and> cancel_task 9 ''t9'' (example_store ''pending'')
       = (Inl (HTTPException 404 ''Task not found''), example_store ''pending'')
   \<and> map_option status (snd (cancel_task 9 ''t1'' (example_store ''pending'')) ''t1'') = Some ''cancelled''"
proof -
  have a: "example_store ''failed'' ''t1'' = Some (example_task ''failed'')
           \<and> status (example_task ''failed'') = ''failed''"
    by (simp add: example_store_def example_task_def)
  have b: "example_store ''pending'' ''t9'' = None"
    by (simp add: example_store_def)
  have c: "\<exists>store'. cancel_task 9 ''t1'' (example_store ''pending'')
                      = (Inr ''Task cancelled successfully'', store')"
    by (simp add: cancel_task_def example_store_def example_task_def)
  from a b c
    cancel_task_succeeds_iff [of 9 "''t1''" "example_store ''failed''"]
    cancel_task_succeeds_iff [of 9 "''t9''" "example_store ''pending''"]
    cancel_task_succeeds_iff [of 9 "''t1''" "example_store ''pending''"]
  show ?thesis
    by (auto simp del: fun_upd_apply)
qed

section \<open>The task life cycle\<close>
















lemma consistent_initial: "consistent initial_system"
  by (simp add: consistent_def initial_system_def)










section \<open>Submission\<close>

text \<open>
  C9. An upload whose file name does not end with \<open>.pdf\<close>, letter case ignored, is
  rejected with the client error 400, and nothing has happened by then: the upload has not
  been read, no file is written, no task record or background task is created and the
  pipeline is not invoked, so the whole state is as it was.
\<close>

theorem analyze_pdf_rejects_other_names:
  assumes "\<not> endswith (lower (filename file)) ''.pdf''"
  shows "analyze_pdf env file st = (Inl (HTTPException 400 ''File must be a PDF''), st)"
  using assms by (simp add: analyze_pdf_def)

theorem analyze_pdf_rejects_other_names_witness:
  "\<not> endswith (lower ''notes.txt'') ''.pdf''
   \<and> analyze_pdf (example_env (Inr [])) (example_upload ''notes.txt'' 3) (example_state ''pending'')
       = (Inl (HTTPException 400 ''File must be a PDF''), example_state ''pending'')"
proof -
  have a: "\<not> endswith (lower (filename (example_upload ''notes.txt'' 3))) ''.pdf''"
    by (simp add: example_upload_def endswith_def lower_def)
  from analyze_pdf_rejects_other_names [OF a] a show ?thesis
    by (simp add: example_upload_def)
qed

lemma process_pdf_analysis_run:
  assumes "tasks st tid = Some t"
  shows "\<exists>st''. process_pdf_analysis env tid p n st = Some st''
           \<and> events st'' = events st @ [RunPipeline p (''intermediate_'' @ timestamp env @ ''.json'')]
           \<and> (\<forall>r. pipeline_outcome env = Inr r \<and> r \<noteq> [] \<and> dump_error env = None \<longrightarrow>
                 (\<exists>t'. tasks st'' tid = Some t' \<and> status t' = ''completed'' \<and> progress t' = 1
                    \<and> result_path t' = Some (''results_'' @ tid @ ''.json'')
                    \<and> intermediate_path t' = Some (''intermediate_'' @ timestamp env @ ''.json'')
                    \<and> message t' = Some (''Analysis completed. Found '' @ str_nat (length r)
                                            @ '' requirements.'')))
           \<and> (\<forall>e. pipeline_outcome env = Inl e \<longrightarrow>
                 (\<exists>t'. tasks st'' tid = Some t' \<and> status t' = ''failed''
                    \<and> message t' = Some (''Analysis failed: '' @ e)))"
proof -
  let ?st1 = "st\<lparr>tasks := (tasks st)(tid \<mapsto>
                  t\<lparr>status := ''processing'',
                    message := Some ''Loading and analyzing document'',
                    progress := 0.1, updated_at := clock env\<rparr>)\<rparr>"
  let ?st2 = "?st1\<lparr>events := events ?st1
                     @ [RunPipeline p (''intermediate_'' @ timestamp env @ ''.json'')]\<rparr>"
  have b: "begin_analysis (clock env) tid st = Some ?st1"
    using assms by (simp add: begin_analysis_def)
  then have r: "process_pdf_analysis env tid p n st = Some (finish_analysis env tid p n ?st2)"
    by (simp add: process_pdf_analysis_def)
  have e: "events (finish_analysis env tid p n ?st2)
             = events st @ [RunPipeline p (''intermediate_'' @ timestamp env @ ''.json'')]"
    by (simp add: finish_analysis_def mark_failed_def remove_file_def Let_def
        split: option.splits sum.splits)
  have s: "\<forall>r. pipeline_outcome env = Inr r \<and> r \<noteq> [] \<and> dump_error env = None \<longrightarrow>
                 (\<exists>t'. tasks (finish_analysis env tid p n ?st2) tid = Some t'
                    \<and> status t' = ''completed'' \<and> progress t' = 1
                    \<and> result_path t' = Some (''results_'' @ tid @ ''.json'')
                    \<and> intermediate_path t' = Some (''intermediate_'' @ timestamp env @ ''.json'')
                    \<and> message t' = Some (''Analysis completed. Found '' @ str_nat (length r)
                                            @ '' requirements.''))"
    by (auto simp: finish_analysis_def async_result_def remove_file_def Let_def
        split: list.splits)
  have f: "\<forall>e. pipeline_outcome env = Inl e \<longrightarrow>
                 (\<exists>t'. tasks (finish_analysis env tid p n ?st2) tid = Some t'
                    \<and> status t' = ''failed'' \<and> message t' = Some (''Analysis failed: '' @ e))"
    by (auto simp: finish_analysis_def mark_failed_def remove_file_def Let_def)
  from r e s f show ?thesis
    by blast
qed

lemma analyze_pdf_async:
  assumes "endswith (lower (filename upload)) ''.pdf''" and "save_error env = None"
    and "\<not> real (length (content upload)) / (1024 * 1024) < 5.0"
  shows "analyze_pdf env upload st =
           (Inr (Queued (uuid4 env)
                   (''Analysis queued for large file. Use /status/'' @ uuid4 env
                      @ '' to check progress.'')),
            st\<lparr>events := events st @ [ReadUpload],
               files := insert (''temp_'' @ uuid4 env @ ''.pdf'') (files st),
               tasks := (tasks st)(uuid4 env \<mapsto>
                          \<lparr>task_id = uuid4 env, status = ''pending'', progress = 0,
                           message = Some ''Analysis queued (large file)'',
                           result_path = None, intermediate_path = None,
                           created_at = clock env, updated_at = clock env\<rparr>),
               background_tasks :=
                 background_tasks st @ [(uuid4 env, ''temp_'' @ uuid4 env @ ''.pdf'', filename upload)]\<rparr>)"
  using assms by (simp add: analyze_pdf_def Let_def)

lemma analyze_pdf_sync:
  assumes "endswith (lower (filename upload)) ''.pdf''" and "save_error env = None"
    and "real (length (content upload)) / (1024 * 1024) < 5.0"
  shows "tasks (snd (analyze_pdf env upload st)) = tasks st"
    and "background_tasks (snd (analyze_pdf env upload st)) = background_tasks st"
    and "events (snd (analyze_pdf env upload st))
           = events st @ [ReadUpload, RunPipeline (''temp_'' @ uuid4 env @ ''.pdf'')
                                        (''intermediate_'' @ timestamp env @ ''.json'')]"
    and "pipeline_outcome env = Inr r \<Longrightarrow> dump_error env = None \<Longrightarrow>
           fst (analyze_pdf env upload st)
             = Inr (Completed (''Analysis completed for '' @ filename upload)
                      \<lparr>document_name = filename upload, total_chunks = 0,
                       processed_chunks = length r, requirements_found = length r,
                       extracted_data = r, processing_status = ''completed'',
                       error_message = None, result_created_at = clock env,
                       result_updated_at = clock env\<rparr>)"
    and "pipeline_outcome env = Inl e \<Longrightarrow>
           fst (analyze_pdf env upload st) = Inl (HTTPException 500 (''Analysis failed: '' @ e))"
  using assms
  by (auto simp: analyze_pdf_def Let_def remove_file_def sync_result_def
      split: option.splits sum.splits)

text \<open>
  C6. An accepted upload (the name ends with \<open>.pdf\<close> and the upload is saved) is routed
  by its size. Below 5.0 MB the pipeline is invoked within the request, the task store and
  the queue of background tasks stay as they are, so that every status query answers as
  before and finds no record of this document, and the response carries the analysis
  result built from what the pipeline returned, or the error 500 when the pipeline raised.
  Otherwise a task record with status pending is stored under the fresh id, the response
  carries that id, the pipeline is not invoked within the request, and the call of
  \<open>process_pdf_analysis\<close> that is queued invokes the pipeline when it runs and ends with
  the task completed, the result and checkpoint paths in its record, or failed.
\<close>

theorem analyze_pdf_routing:
  assumes "endswith (lower (filename file)) ''.pdf''" and "save_error env = None"
  shows "(real (length (content file)) / (1024 * 1024) < 5.0 \<longrightarrow>
            tasks (snd (analyze_pdf env file st)) = tasks st
          \<and> background_tasks (snd (analyze_pdf env file st)) = background_tasks st
          \<and> (\<forall>tid. get_analysis_status tid (tasks (snd (analyze_pdf env file st)))
                     = get_analysis_status tid (tasks st))
          \<and> (tasks st (uuid4 env) = None \<longrightarrow>
                get_analysis_status (uuid4 env) (tasks (snd (analyze_pdf env file st)))
                  = Inl (HTTPException 404 ''Task not found''))
          \<and> events (snd (analyze_pdf env file st))
              = events st @ [ReadUpload, RunPipeline (''temp_'' @ uuid4 env @ ''.pdf'')
                                           (''intermediate_'' @ timestamp env @ ''.json'')]
          \<and> (\<forall>r. pipeline_outcome env = Inr r \<and> dump_error env = None \<longrightarrow>
                fst (analyze_pdf env file st)
                  = Inr (Completed (''Analysis completed for '' @ filename file)
                           \<lparr>document_name = filename file, total_chunks = 0,
                            processed_chunks = length r, requirements_found = length r,
                            extracted_data = r, processing_status = ''completed'',
                            error_message = None, result_created_at = clock env,
                            result_updated_at = clock env\<rparr>))
          \<and> (\<forall>e. pipeline_outcome env = Inl e \<longrightarrow>
                fst (analyze_pdf env file st)
                  = Inl (HTTPException 500 (''Analysis failed: '' @ e))))
       \<and> (\<not> real (length (content file)) / (1024 * 1024) < 5.0 \<longrightarrow>
            fst (analyze_pdf env file st)
              = Inr (Queued (uuid4 env)
                       (''Analysis queued for large file. Use /status/'' @ uuid4 env
                          @ '' to check progress.''))
          \<and> get_analysis_status (uuid4 env) (tasks (snd (analyze_pdf env file st)))
              = Inr \<lparr>task_id = uuid4 env, status = ''pending'', progress = 0,
                     message = Some ''Analysis queued (large file)'',
                     result_path = None, intermediate_path = None,
                     created_at = clock env, updated_at = clock env\<rparr>
          \<and> (\<forall>tid. tid \<noteq> uuid4 env \<longrightarrow> tasks (snd (analyze_pdf env file st)) tid = tasks st tid)
          \<and> background_tasks (snd (analyze_pdf env file st))
              = background_tasks st @ [(uuid4 env, ''temp_'' @ uuid4 env @ ''.pdf'', filename file)]
          \<and> events (snd (analyze_pdf env file st)) = events st @ [ReadUpload]
          \<and> (\<forall>env'. \<exists>st''.
                run_background_task env'
                    (uuid4 env, ''temp_'' @ uuid4 env @ ''.pdf'', filename file)
                    (snd (analyze_pdf env file st)) = Some st''
              \<and> events st'' = events st @ [ReadUpload,
                    RunPipeline (''temp_'' @ uuid4 env @ ''.pdf'')
                      (''intermediate_'' @ timestamp env' @ ''.json'')]
              \<and> (\<forall>r. pipeline_outcome env' = Inr r \<and> r \<noteq> [] \<and> dump_error env' = None \<longrightarrow>
                    (\<exists>t'. tasks st'' (uuid4 env) = Some t' \<and> status t' = ''completed''
                       \<and> progress t' = 1
                       \<and> result_path t' = Some (''results_'' @ uuid4 env @ ''.json'')
                       \<and> intermediate_path t'
                           = Some (''intermediate_'' @ timestamp env' @ ''.json'')
                       \<and> message t' = Some (''Analysis completed. Found ''
                                               @ str_nat (length r) @ '' requirements.'')))
              \<and> (\<forall>e. pipeline_outcome env' = Inl e \<longrightarrow>
                    (\<exists>t'. tasks st'' (uuid4 env) = Some t' \<and> status t' = ''failed''
                       \<and> message t' = Some (''Analysis failed: '' @ e)))))"
proof (cases "real (length (content file)) / (1024 * 1024) < 5.0")
  case True
  note s = analyze_pdf_sync [OF assms True]
  from True s show ?thesis
    by (simp add: get_analysis_status_def)
next
  case False
  note a = analyze_pdf_async [OF assms False]
  let ?st' = "snd (analyze_pdf env file st)"
  let ?job = "(uuid4 env, ''temp_'' @ uuid4 env @ ''.pdf'', filename file)"
  have t: "tasks ?st' (uuid4 env)
             = Some \<lparr>task_id = uuid4 env, status = ''pending'', progress = 0,
                     message = Some ''Analysis queued (large file)'',
                     result_path = None, intermediate_path = None,
                     created_at = clock env, updated_at = clock env\<rparr>"
    and ev: "events ?st' = events st @ [ReadUpload]"
    by (simp_all add: a)
  have bg: "\<forall>env'. \<exists>st''.
                run_background_task env' ?job ?st' = Some st''
              \<and> events st'' = events st @ [ReadUpload,
                    RunPipeline (''temp_'' @ uuid4 env @ ''.pdf'')
                      (''intermediate_'' @ timestamp env' @ ''.json'')]
              \<and> (\<forall>r. pipeline_outcome env' = Inr r \<and> r \<noteq> [] \<and> dump_error env' = None \<longrightarrow>
                    (\<exists>t'. tasks st'' (uuid4 env) = Some t' \<and> status t' = ''completed''
                       \<and> progress t' = 1
                       \<and> result_path t' = Some (''results_'' @ uuid4 env @ ''.json'')
                       \<and> intermediate_path t'
                           = Some (''intermediate_'' @ timestamp env' @ ''.json'')
                       \<and> message t' = Some (''Analysis completed. Found ''
                                               @ str_nat (length r) @ '' requirements.'')))
              \<and> (\<forall>e. pipeline_outcome env' = Inl e \<longrightarrow>
                    (\<exists>t'. tasks st'' (uuid4 env) = Some t' \<and> status t' = ''failed''
                       \<and> message t' = Some (''Analysis failed: '' @ e)))"
  proof
    fix env'
    from process_pdf_analysis_run [OF t, of env' "''temp_'' @ uuid4 env @ ''.pdf''" "filename file"]
    show "\<exists>st''.
                run_background_task env' ?job ?st' = Some st''
              \<and> events st'' = events st @ [ReadUpload,
                    RunPipeline (''temp_'' @ uuid4 env @ ''.pdf'')
                      (''intermediate_'' @ timestamp env' @ ''.json'')]
              \<and> (\<forall>r. pipeline_outcome env' = Inr r \<and> r \<noteq> [] \<and> dump_error env' = None \<longrightarrow>
                    (\<exists>t'. tasks st'' (uuid4 env) = Some t' \<and> status t' = ''completed''
                       \<and> progress t' = 1
                       \<and> result_path t' = Some (''results_'' @ uuid4 env @ ''.json'')
                       \<and> intermediate_path t'
                           = Some (''intermediate_'' @ timestamp env' @ ''.json'')
                       \<and> message t' = Some (''Analysis completed. Found ''
                                               @ str_nat (length r) @ '' requirements.'')))
              \<and> (\<forall>e. pipeline_outcome env' = Inl e \<longrightarrow>
                    (\<exists>t'. tasks st'' (uuid4 env) = Some t' \<and> status t' = ''failed''
                       \<and> message t' = Some (''Analysis failed: '' @ e)))"
      unfolding run_background_task_def prod.case ev by simp
  qed
  have rest: "fst (analyze_pdf env file st)
              = Inr (Queued (uuid4 env)
                       (''Analysis queued for large file. Use /status/'' @ uuid4 env
                          @ '' to check progress.''))
          \<and> get_analysis_status (uuid4 env) (tasks ?st')
              = Inr \<lparr>task_id = uuid4 env, status = ''pending'', progress = 0,
                     message = Some ''Analysis queued (large file)'',
                     result_path = None, intermediate_path = None,
                     created_at = clock env, updated_at = clock env\<rparr>
          \<and> (\<forall>tid. tid \<noteq> uuid4 env \<longrightarrow> tasks ?st' tid = tasks st tid)
          \<and> background_tasks ?st' = background_tasks st @ [?job]
          \<and> events ?st' = events st @ [ReadUpload]"
    by (simp add: a get_analysis_status_def)
  from False rest bg show ?thesis
    by blast
qed

theorem analyze_pdf_routing_witness:
  "endswith (lower ''a.PDF'') ''.pdf'' \<and> endswith (lower ''big.pdf'') ''.pdf''
   \<and> fst (analyze_pdf (example_env (Inr [example_requirement])) (example_upload ''a.PDF'' 3)
            (example_state ''pending''))
       = Inr (Completed ''Analysis completed for a.PDF'' (sync_result 20 ''a.PDF'' [example_requirement]))
   \<and> tasks (snd (analyze_pdf (example_env (Inr [example_requirement])) (example_upload ''a.PDF'' 3)
            (example_state ''pending''))) = tasks (example_state ''pending'')
   \<and> (\<exists>msg. fst (analyze_pdf (example_env (Inr [])) (example_upload ''big.pdf'' 5242880)
                   (example_state ''pending'')) = Inr (Queued ''t3'' msg))
   \<and> (\<exists>st'' t'. run_background_task (example_env (Inr [example_requirement]))
                    (''t3'', ''temp_t3.pdf'', ''big.pdf'')
                    (snd (analyze_pdf (example_env (Inr [])) (example_upload ''big.pdf'' 5242880)
                            (example_state ''pending''))) = Some st''
          \<and> tasks st'' ''t3'' = Some t' \<and> status t' = ''completed''
          \<and> result_path t' = Some ''results_t3.json'')"
proof -
  have n1: "endswith (lower ''a.PDF'') ''.pdf''" and n2: "endswith (lower ''big.pdf'') ''.pdf''"
    by code_simp+
  have a1: "endswith (lower (filename (example_upload ''a.PDF'' 3))) ''.pdf''"
    and a2: "endswith (lower (filename (example_upload ''big.pdf'' 5242880))) ''.pdf''"
    using n1 n2 by (simp_all add: example_upload_def)
  have s1: "save_error (example_env (Inr [example_requirement])) = None"
    and s2: "save_error (example_env (Inr [])) = None"
    by (simp_all add: example_env_def)
  have small: "real (length (content (example_upload ''a.PDF'' 3))) / (1024 * 1024) < 5.0"
    and big: "\<not> real (length (content (example_upload ''big.pdf'' 5242880))) / (1024 * 1024) < 5.0"
    by (simp_all add: example_upload_def)
  have p: "pipeline_outcome (example_env (Inr [example_requirement])) = Inr [example_requirement]
           \<and> dump_error (example_env (Inr [example_requirement])) = None
           \<and> clock (example_env (Inr [example_requirement])) = 20
           \<and> uuid4 (example_env (Inr [])) = ''t3''
           \<and> filename (example_upload ''a.PDF'' 3) = ''a.PDF''
           \<and> filename (example_upload ''big.pdf'' 5242880) = ''big.pdf''
           \<and> [example_requirement] \<noteq> []"
    by (simp add: example_env_def example_upload_def)
  note sy = analyze_pdf_routing [OF a1 s1, of "example_state ''pending''", THEN conjunct1,
      rule_format, OF small]
  note x1 = sy [THEN conjunct1]
  note x2 = sy [THEN conjunct2, THEN conjunct2, THEN conjunct2, THEN conjunct2, THEN conjunct2,
      THEN conjunct1, rule_format, of "[example_requirement]"]
  have pe: "pipeline_outcome (example_env (Inr [example_requirement])) = Inr [example_requirement]
            \<and> dump_error (example_env (Inr [example_requirement])) = None"
    using p by simp
  have x: "fst (analyze_pdf (example_env (Inr [example_requirement])) (example_upload ''a.PDF'' 3)
            (example_state ''pending''))
       = Inr (Completed ''Analysis completed for a.PDF'' (sync_result 20 ''a.PDF'' [example_requirement]))"
    using x2 [OF pe] p by (simp add: sync_result_def)
  note b = analyze_pdf_routing [OF a2 s2, of "example_state ''pending''", THEN conjunct2,
      rule_format, OF big]
  from b [THEN conjunct1] have y: "\<exists>msg. fst (analyze_pdf (example_env (Inr []))
      (example_upload ''big.pdf'' 5242880) (example_state ''pending'')) = Inr (Queued ''t3'' msg)"
    using p by simp
  note bg = b [THEN conjunct2, THEN conjunct2, THEN conjunct2, THEN conjunct2, THEN conjunct2,
      rule_format, of "example_env (Inr [example_requirement])"]
  from bg obtain st'' where
    r: "run_background_task (example_env (Inr [example_requirement]))
          (uuid4 (example_env (Inr [])), ''temp_'' @ uuid4 (example_env (Inr [])) @ ''.pdf'',
           filename (example_upload ''big.pdf'' 5242880))
          (snd (analyze_pdf (example_env (Inr [])) (example_upload ''big.pdf'' 5242880)
                  (example_state ''pending''))) = Some st''"
    and c: "\<forall>r. pipeline_outcome (example_env (Inr [example_requirement])) = Inr r \<and> r \<noteq> []
              \<and> dump_error (example_env (Inr [example_requirement])) = None \<longrightarrow>
            (\<exists>t'. tasks st'' (uuid4 (example_env (Inr []))) = Some t' \<and> status t' = ''completed''
               \<and> progress t' = 1
               \<and> result_path t' = Some (''results_'' @ uuid4 (example_env (Inr [])) @ ''.json'')
               \<and> intermediate_path t'
                   = Some (''intermediate_''
                             @ timestamp (example_env (Inr [example_requirement])) @ ''.json'')
               \<and> message t' = Some (''Analysis completed. Found ''
                                       @ str_nat (length r) @ '' requirements.''))"
    by (elim exE conjE)
  have pe': "pipeline_outcome (example_env (Inr [example_requirement])) = Inr [example_requirement]
            \<and> [example_requirement] \<noteq> []
            \<and> dump_error (example_env (Inr [example_requirement])) = None"
    using p by simp
  from c [rule_format, OF pe'] obtain t' where
    t: "tasks st'' (uuid4 (example_env (Inr []))) = Some t'" "status t' = ''completed''"
      "result_path t' = Some (''results_'' @ uuid4 (example_env (Inr [])) @ ''.json'')"
    by (elim exE conjE)
  have u: "uuid4 (example_env (Inr [])) = ''t3''"
    and fn: "filename (example_upload ''big.pdf'' 5242880) = ''big.pdf''"
    using p by simp_all
  from r t have z: "\<exists>st'' t'. run_background_task (example_env (Inr [example_requirement]))
                    (''t3'', ''temp_t3.pdf'', ''big.pdf'')
                    (snd (analyze_pdf (example_env (Inr [])) (example_upload ''big.pdf'' 5242880)
                            (example_state ''pending''))) = Some st''
          \<and> tasks st'' ''t3'' = Some t' \<and> status t' = ''completed''
          \<and> result_path t' = Some ''results_t3.json''"
    unfolding u fn by (intro exI [of _ st''] exI [of _ t']) simp
  from n1 n2 x x1 y z show ?thesis
    by (intro conjI)
qed

section \<open>The leading numeric token\<close>

lemma dot_no_digit: "\<not> is_digit CHR ''.''"
  by (simp add: is_digit_def ord_def)

lemma takeWhile_digits_append:
  assumes "list_all is_digit ds" "y = [] \<or> \<not> is_digit (hd y)"
  shows "takeWhile is_digit (ds @ y) = ds" and "dropWhile is_digit (ds @ y) = y"
proof -
  from assms(2) have "takeWhile is_digit y = [] \<and> dropWhile is_digit y = y"
    by (cases y) auto
  with assms(1) show "takeWhile is_digit (ds @ y) = ds" and "dropWhile is_digit (ds @ y) = y"
    by (induction ds) auto
qed

lemma dotted_groups_prefix: "\<exists>rest. y = dotted_groups y @ rest"
proof (induction y rule: dotted_groups.induct)
  case 1
  then show ?case by simp
next
  case (2 c cs)
  show ?case
  proof (cases "c = CHR ''.'' \<and> takeWhile is_digit cs \<noteq> []")
    case True
    from "2.IH" [OF True] obtain rest where
      r: "dropWhile is_digit cs = dotted_groups (dropWhile is_digit cs) @ rest" by blast
    have "cs = takeWhile is_digit cs @ dropWhile is_digit cs" by simp
    then have "cs = takeWhile is_digit cs @ dotted_groups (dropWhile is_digit cs) @ rest"
      using r by simp
    then show ?thesis using True by auto
  next
    case False
    then show ?thesis by auto
  qed
qed

lemma leading_token_section_number:
  assumes "section_number s" "y = [] \<or> \<not> is_digit (hd y)"
  shows "leading_token (s @ y) = s @ dotted_groups y"
  using assms
proof (induction arbitrary: y rule: section_number.induct)
  case (digits ds)
  then show ?case by (simp add: leading_token_def takeWhile_digits_append)
next
  case (dotted s ds)
  have "leading_token ((s @ CHR ''.'' # ds) @ y) = leading_token (s @ (CHR ''.'' # ds @ y))"
    by simp
  also have "\<dots> = s @ dotted_groups (CHR ''.'' # ds @ y)"
    by (rule dotted.IH) (simp add: dot_no_digit)
  also have "dotted_groups (CHR ''.'' # ds @ y) = CHR ''.'' # ds @ dotted_groups y"
    using dotted.hyps(2,3) dotted.prems by (simp add: takeWhile_digits_append)
  finally show ?case by simp
qed

lemma section_number_extend:
  assumes "section_number s" "list_all is_digit ds"
  shows "section_number (s @ ds)"
  using assms
proof (induction rule: section_number.induct)
  case (digits es)
  then show ?case by (intro section_number.digits) auto
next
  case (dotted s es)
  have "section_number (s @ CHR ''.'' # (es @ ds))"
    using dotted by (intro section_number.dotted) auto
  then show ?case by simp
qed

lemma dotted_groups_section_number:
  "section_number s \<Longrightarrow> section_number (s @ dotted_groups y)"
proof (induction y arbitrary: s rule: dotted_groups.induct)
  case 1
  then show ?case by simp
next
  case (2 c cs)
  show ?case
  proof (cases "c = CHR ''.'' \<and> takeWhile is_digit cs \<noteq> []")
    case True
    have "section_number (s @ CHR ''.'' # takeWhile is_digit cs)"
      using "2.prems" True by (intro section_number.dotted) (auto simp: list_all_iff dest: set_takeWhileD)
    from "2.IH" [OF True this] True show ?thesis by simp
  next
    case False
    with "2.prems" show ?thesis by auto
  qed
qed

lemma extract_section_num_sound:
  assumes "extract_section_num sid = Some m"
  shows "section_number m \<and> (\<exists>rest. sid = m @ rest)"
proof -
  from assms have ne: "takeWhile is_digit sid \<noteq> []" and m: "m = leading_token sid"
    by (auto simp: extract_section_num_def leading_token_def split: if_splits)
  have "section_number (takeWhile is_digit sid)"
    using ne by (intro section_number.digits) (auto simp: list_all_iff dest: set_takeWhileD)
  then have "section_number m"
    unfolding m leading_token_def by (rule dotted_groups_section_number)
  moreover have "\<exists>rest. sid = m @ rest"
  proof -
    obtain rest where "dropWhile is_digit sid = dotted_groups (dropWhile is_digit sid) @ rest"
      using dotted_groups_prefix by blast
    then have "takeWhile is_digit sid @ dropWhile is_digit sid = m @ rest"
      unfolding m leading_token_def by simp
    then show ?thesis by auto
  qed
  ultimately show ?thesis by simp
qed


lemma section_number_hd:
  "section_number p \<Longrightarrow> \<exists>d ds. p = d # ds \<and> is_digit d"
  by (induction rule: section_number.induct) (auto simp: neq_Nil_conv)

lemma extract_section_num_longest:
  assumes "section_number p"
  shows "\<exists>m rest. extract_section_num (p @ y) = Some m \<and> m = p @ rest"
proof -
  let ?ds = "takeWhile is_digit y" and ?z = "dropWhile is_digit y"
  have z: "?z = [] \<or> \<not> is_digit (hd ?z)"
    by (metis hd_dropWhile)
  have sn: "section_number (p @ ?ds)"
    using assms by (rule section_number_extend) (auto simp: list_all_iff dest: set_takeWhileD)
  have "leading_token ((p @ ?ds) @ ?z) = (p @ ?ds) @ dotted_groups ?z"
    using sn z by (rule leading_token_section_number)
  then have lt: "leading_token (p @ y) = p @ ?ds @ dotted_groups ?z"
    by simp
  have "takeWhile is_digit (p @ y) \<noteq> []"
    using section_number_hd [OF assms] by auto
  then have "extract_section_num (p @ y) = Some (leading_token (p @ y))"
    by (simp add: extract_section_num_def leading_token_def)
  with lt show ?thesis by simp
qed

lemma extract_section_num_None:
  "extract_section_num sid = None \<longleftrightarrow> (sid = [] \<or> \<not> is_digit (hd sid))"
  by (cases sid) (auto simp: extract_section_num_def)

section \<open>Completion order\<close>

lemma fst_process_chunk: "fst (process_chunk i chunk rc cc dn) = i"
  by (simp add: process_chunk_def)

lemma submit_all_nth:
  assumes "k < length chunks"
  shows "submit_all chunks rc cc dn ! k = (k, snd (process_chunk k (chunks ! k) rc cc dn))"
  using assms by (simp add: submit_all_def nth_enumerate_eq process_chunk_def)

lemma as_completed_submit_all:
  assumes "set order \<subseteq> {0..<length chunks}"
  shows "as_completed (submit_all chunks rc cc dn) order
           = map (\<lambda>k. (k, snd (process_chunk k (chunks ! k) rc cc dn))) order"
  using assms by (auto simp: as_completed_def submit_all_nth)

lemma results_fold:
  "results (fold record_completion (map (\<lambda>k. (k, w k)) order) s)
     = fold (\<lambda>k. AList.update k (w k)) order (results s)"
  by (induction order arbitrary: s) (simp_all add: record_completion_def Let_def)

lemma intermediate_fold:
  "intermediate_file (fold record_completion futs s)
     = (if futs = [] then intermediate_file s
        else Some (flatten (results (fold record_completion futs s))))"
proof (induction futs arbitrary: s)
  case Nil
  then show ?case by simp
next
  case (Cons f futs)
  show ?case
  proof (cases "futs = []")
    case True
    then show ?thesis by (simp add: record_completion_def Let_def)
  next
    case False
    then show ?thesis by (simp add: Cons.IH)
  qed
qed

lemma map_of_fold_update:
  "map_of (fold (\<lambda>k. AList.update k (w k)) order rs) k
     = (if k \<in> set order then Some (w k) else map_of rs k)"
  by (induction order arbitrary: rs) (auto simp: update_conv')

lemma keys_fold_update:
  "set (map fst (fold (\<lambda>k. AList.update k (w k)) order rs)) = set (map fst rs) \<union> set order"
  by (induction order arbitrary: rs) (auto simp: dom_update)

lemma distinct_fold_update:
  "distinct (map fst rs) \<Longrightarrow> distinct (map fst (fold (\<lambda>k. AList.update k (w k)) order rs))"
  by (induction order arbitrary: rs) (auto simp: distinct_update)

lemma sorted_keys:
  assumes "distinct ks" "set ks = {0..<n}"
  shows "sort ks = [0..<n]"
proof -
  have "sort ks = sorted_list_of_set (set ks)"
    using assms(1) by (simp add: sorted_list_of_set_sort_remdups distinct_remdups_id)
  then show ?thesis using assms(2) by simp
qed

lemma run_pool_results:
  assumes "distinct order" "set order = {0..<length chunks}"
  shows "sort (map fst (results (run_pool dn chunks rc cc order))) = [0..<length chunks]"
    and "\<And>k. k < length chunks \<Longrightarrow> map_of (results (run_pool dn chunks rc cc order)) k
            = Some (snd (process_chunk k (chunks ! k) rc cc dn))"
proof -
  let ?w = "\<lambda>k. snd (process_chunk k (chunks ! k) rc cc dn)"
  have r: "results (run_pool dn chunks rc cc order) = fold (\<lambda>k. AList.update k (?w k)) order []"
    using assms(2) by (simp add: run_pool_def as_completed_submit_all results_fold)
  show "sort (map fst (results (run_pool dn chunks rc cc order))) = [0..<length chunks]"
    unfolding r
    by (rule sorted_keys) (use assms in \<open>simp_all add: distinct_fold_update keys_fold_update del: set_map\<close>)
  show "\<And>k. k < length chunks \<Longrightarrow> map_of (results (run_pool dn chunks rc cc order)) k = Some (?w k)"
    unfolding r using assms(2) by (simp add: map_of_fold_update)
qed

lemma orchestrate_value:
  assumes "distinct order" "set order = {0..<length chunks}"
  shows "fst (orchestrate_compliance_analysis dn chunks rc cc order)
           = concat (map (\<lambda>i. extract_segment dn rc cc i (chunks ! i)) [0..<length chunks])"
proof -
  note r = run_pool_results [OF assms]
  have "map (\<lambda>idx. validate_all (case map_of (results (run_pool dn chunks rc cc order)) idx of
                                  Some items \<Rightarrow> items | None \<Rightarrow> [])) [0..<length chunks]
          = map (\<lambda>i. extract_segment dn rc cc i (chunks ! i)) [0..<length chunks]"
    by (rule map_cong) (simp_all add: r(2) extract_segment_def)
  then show ?thesis
    by (simp only: orchestrate_compliance_analysis_def Let_def fst_conv r(1))
qed

lemma flatten_value:
  assumes "distinct order" "set order = {0..<length chunks}"
  shows "flatten (results (run_pool dn chunks rc cc order))
           = concat (map (\<lambda>i. snd (process_chunk i (chunks ! i) rc cc dn)) [0..<length chunks])"
proof -
  note r = run_pool_results [OF assms]
  have "map (\<lambda>idx. case map_of (results (run_pool dn chunks rc cc order)) idx of
                     Some items \<Rightarrow> items | None \<Rightarrow> []) [0..<length chunks]
          = map (\<lambda>i. snd (process_chunk i (chunks ! i) rc cc dn)) [0..<length chunks]"
    by (rule map_cong) (simp_all add: r(2))
  then show ?thesis
    by (simp only: flatten_def r(1))
qed

lemma validate_all_concat: "validate_all (concat xss) = concat (map validate_all xss)"
  by (induction xss) (simp_all add: validate_all_def map_filter_def)

lemma checkpoint_value:
  assumes "distinct order" "set order = {0..<length chunks}" "chunks \<noteq> []"
  shows "snd (orchestrate_compliance_analysis dn chunks rc cc order)
           = Some (flatten (results (run_pool dn chunks rc cc order)))"
proof -
  have "order \<noteq> []" using assms by auto
  then show ?thesis
    by (simp add: orchestrate_compliance_analysis_def Let_def run_pool_def intermediate_fold
        as_completed_def)
qed

section \<open>Article numbers of the emitted records\<close>

lemma override_fields_sets:
  assumes "override_fields num body items = Some reqs" "r \<in> set reqs"
  shows "map_of r ''article_number'' = Some (JStr num) \<and> map_of r ''article_text'' = Some (JStr body)"
  using assms
  by (induction num body items arbitrary: reqs rule: override_fields.induct)
     (auto simp: update_conv' split: option.splits)

lemma requirements_fields:
  assumes "r \<in> set (extract_requirements_from_chunk rc chunk dn)"
  shows "map_of r ''article_number'' = Some (JStr (section_num_of chunk))
       \<and> map_of r ''article_text'' = Some (JStr (page_content chunk))"
proof -
  from assms obtain raw_output reqs where
    o: "override_fields (section_num_of chunk) (page_content chunk) raw_output = Some reqs"
    and r: "r \<in> set reqs"
    by (auto simp: extract_requirements_from_chunk_def
        split: outcome.splits json.splits option.splits) metis
  from override_fields_sets [OF o r] show ?thesis .
qed

lemma process_chunk_fields:
  assumes "r \<in> set (snd (process_chunk i chunk rc cc dn))"
  shows "map_of r ''article_number'' = Some (JStr (section_num_of chunk))
       \<and> map_of r ''article_text'' = Some (JStr (page_content chunk))"
  using assms requirements_fields
  by (auto simp: process_chunk_def update_conv')

lemma model_validate_fields:
  assumes "model_validate d = Some r"
  shows "get_str d ''article_number'' = Some (article_number r)
       \<and> get_str d ''article_text'' = Some (article_text r)"
  using assms by (auto simp: model_validate_def split: option.splits prod.splits)

lemma extract_segment_fields:
  assumes "r \<in> set (extract_segment dn rc cc i chunk)"
  shows "article_number r = section_num_of chunk \<and> article_text r = page_content chunk"
proof -
  from assms obtain d where d: "d \<in> set (snd (process_chunk i chunk rc cc dn))"
    and v: "model_validate d = Some r"
    by (auto simp: extract_segment_def validate_all_def map_filter_def)
  from process_chunk_fields [OF d] model_validate_fields [OF v] show ?thesis
    by (simp add: get_str_def)
qed

lemma token_ends_dotted_groups:
  assumes "token_ends rest"
  shows "dotted_groups rest = []" and "rest = [] \<or> \<not> is_digit (hd rest)"
  using assms by (induction rest rule: token_ends.induct) auto

lemma extract_section_num_token:
  assumes "section_number s" "token_ends rest"
  shows "extract_section_num (s @ rest) = Some s"
proof -
  have "leading_token (s @ rest) = s @ dotted_groups rest"
    using assms(1) token_ends_dotted_groups(2) [OF assms(2)] by (rule leading_token_section_number)
  moreover have "takeWhile is_digit (s @ rest) \<noteq> []"
    using section_number_hd [OF assms(1)] by auto
  ultimately show ?thesis
    using token_ends_dotted_groups(1) [OF assms(2)]
    by (simp add: extract_section_num_def leading_token_def)
qed

lemma section_number_612: "section_number ''6.1.2''"
proof -
  have "section_number ''6''" by (rule section_number.digits) (simp_all add: is_digit_def ord_def)
  then have "section_number (''6'' @ CHR ''.'' # ''1'')"
    by (rule section_number.dotted) (simp_all add: is_digit_def ord_def)
  then have "section_number ((''6'' @ CHR ''.'' # ''1'') @ CHR ''.'' # ''2'')"
    by (rule section_number.dotted) (simp_all add: is_digit_def ord_def)
  then show ?thesis by simp
qed

lemma section_num_of_eq:
  "section_num_of chunk =
     (let sid = (case section_id chunk of Some s \<Rightarrow> s | None \<Rightarrow> ''unknown'')
      in case extract_section_num sid of Some m \<Rightarrow> m | None \<Rightarrow> sid)"
  by (auto simp: section_num_of_def Let_def extract_section_num_def split: option.splits)



lemma not_token_ends_extends:
  assumes "section_number s" and "\<not> token_ends rest"
  shows "\<exists>p y. rest = p @ y \<and> p \<noteq> [] \<and> section_number (s @ p)"
proof (cases rest rule: token_ends.cases)
  case 1
  with assms(2) show ?thesis by simp
next
  case (2 c)
  with assms(2) have "list_all is_digit [c]" by simp
  from section_number_extend [OF assms(1) this] 2 show ?thesis
    by (intro exI [of _ "[c]"] exI [of _ "[]"]) simp
next
  case (3 c d r)
  with assms(2) consider "is_digit c" | "c = CHR ''.''" "is_digit d" by auto
  then show ?thesis
  proof cases
    case 1
    then have "list_all is_digit [c]" by simp
    from section_number_extend [OF assms(1) this] 3 show ?thesis
      by (intro exI [of _ "[c]"] exI [of _ "d # r"]) simp
  next
    case 2
    then have "section_number (s @ CHR ''.'' # [d])"
      by (intro section_number.dotted assms(1)) simp_all
    with 2 3 show ?thesis
      by (intro exI [of _ "[c, d]"] exI [of _ r]) simp
  qed
qed

lemma extract_section_num_token_iff:
  assumes "section_number s"
  shows "extract_section_num (s @ rest) = Some s \<longleftrightarrow> token_ends rest"
proof
  assume e: "extract_section_num (s @ rest) = Some s"
  show "token_ends rest"
  proof (rule ccontr)
    assume "\<not> token_ends rest"
    from not_token_ends_extends [OF assms this] obtain p y where
      r: "rest = p @ y" and p: "p \<noteq> []" and sn: "section_number (s @ p)"
      by blast
    from extract_section_num_longest [OF sn, of y] obtain m q where
      "extract_section_num ((s @ p) @ y) = Some m" and "m = (s @ p) @ q"
      by blast
    with e r have "s = (s @ p) @ q" by simp
    with p show False by simp
  qed
next
  assume "token_ends rest"
  with assms show "extract_section_num (s @ rest) = Some s"
    by (rule extract_section_num_token)
qed

text \<open>
  C7, as the specification states it, says that a segment whose id starts with \<open>6.1.2\<close>
  has the article number \<open>6.1.2\<close>. The match is greedy: the heading
  \<open>6.1.2.3 Sub-clause\<close> starts with \<open>6.1.2\<close>, is taken as the id of its segment, and has
  the article number \<open>6.1.2.3\<close>.
\<close>

theorem numeric_token_is_greedy:
  "startswith ''6.1.2.3 Sub-clause'' ''6.1.2''
   \<and> map section_id (label_chunks ''ISO'' [piece ''6.1.2.3 Sub-clause''])
       = [Some ''6.1.2.3 Sub-clause'']
   \<and> extract_section_num ''6.1.2.3 Sub-clause'' = Some ''6.1.2.3''
   \<and> map section_num_of (label_chunks ''ISO'' [piece ''6.1.2.3 Sub-clause'']) = [''6.1.2.3'']"
  by code_simp

text \<open>
  C7, amended. The article number of a segment is the leading numeric token of its id: the
  match of the pattern digits, period, digits, ... at the start of the id, which is the
  longest prefix of the id of that form, and the id itself when the id does not start with
  such a token. An id that starts with \<open>6.1.2\<close> gives \<open>6.1.2\<close> exactly when the token ends
  there, that is when the id goes on neither with a digit nor with a period and a digit.
  Every record that the worker of a segment emits, and every validated requirement made
  from it, carries this article number and the text of the segment as article text,
  whatever the inference service reported in these fields.
\<close>

theorem article_number_from_segment_id:
  assumes "sid = (case section_id chunk of Some s \<Rightarrow> s | None \<Rightarrow> ''unknown'')"
  shows "section_num_of chunk = (case extract_section_num sid of Some m \<Rightarrow> m | None \<Rightarrow> sid)
       \<and> (\<forall>m. extract_section_num sid = Some m \<longrightarrow>
              section_number m \<and> (\<exists>rest. sid = m @ rest)
            \<and> (\<forall>p rest. sid = p @ rest \<and> section_number p \<longrightarrow> (\<exists>q. m = p @ q)))
       \<and> (extract_section_num sid = None \<longleftrightarrow> \<not> (\<exists>p rest. sid = p @ rest \<and> section_number p))
       \<and> (\<forall>rest. extract_section_num (''6.1.2'' @ rest) = Some ''6.1.2'' \<longleftrightarrow> token_ends rest)
       \<and> extract_section_num ''6.1.2 Determining risks'' = Some ''6.1.2''
       \<and> (\<forall>r \<in> set (snd (process_chunk i chunk rc cc dn)).
              map_of r ''article_number'' = Some (JStr (section_num_of chunk))
            \<and> map_of r ''article_text'' = Some (JStr (page_content chunk)))
       \<and> (\<forall>r \<in> set (extract_segment dn rc cc i chunk).
              article_number r = section_num_of chunk \<and> article_text r = page_content chunk)"
proof -
  have a: "section_num_of chunk = (case extract_section_num sid of Some m \<Rightarrow> m | None \<Rightarrow> sid)"
    unfolding assms by (simp add: section_num_of_eq Let_def)
  have b: "\<forall>m. extract_section_num sid = Some m \<longrightarrow>
              section_number m \<and> (\<exists>rest. sid = m @ rest)
            \<and> (\<forall>p rest. sid = p @ rest \<and> section_number p \<longrightarrow> (\<exists>q. m = p @ q))"
  proof (intro allI impI)
    fix m assume e: "extract_section_num sid = Some m"
    have "\<forall>p rest. sid = p @ rest \<and> section_number p \<longrightarrow> (\<exists>q. m = p @ q)"
    proof (intro allI impI)
      fix p rest assume h: "sid = p @ rest \<and> section_number p"
      then obtain m' q where "extract_section_num (p @ rest) = Some m'" and "m' = p @ q"
        using extract_section_num_longest [of p rest] by blast
      with e h show "\<exists>q. m = p @ q" by auto
    qed
    with extract_section_num_sound [OF e]
    show "section_number m \<and> (\<exists>rest. sid = m @ rest)
            \<and> (\<forall>p rest. sid = p @ rest \<and> section_number p \<longrightarrow> (\<exists>q. m = p @ q))"
      by simp
  qed
  have c: "extract_section_num sid = None \<longleftrightarrow> \<not> (\<exists>p rest. sid = p @ rest \<and> section_number p)"
  proof
    assume n: "extract_section_num sid = None"
    show "\<not> (\<exists>p rest. sid = p @ rest \<and> section_number p)"
    proof
      assume "\<exists>p rest. sid = p @ rest \<and> section_number p"
      then obtain p rest where h: "sid = p @ rest" "section_number p" by blast
      from extract_section_num_longest [OF h(2), of rest] h(1) n show False by simp
    qed
  next
    assume n: "\<not> (\<exists>p rest. sid = p @ rest \<and> section_number p)"
    show "extract_section_num sid = None"
    proof (cases "extract_section_num sid")
      case None
      then show ?thesis .
    next
      case (Some m)
      from extract_section_num_sound [OF Some] n show ?thesis by blast
    qed
  qed
  have d: "\<forall>rest. extract_section_num (''6.1.2'' @ rest) = Some ''6.1.2'' \<longleftrightarrow> token_ends rest"
    using extract_section_num_token_iff [OF section_number_612] by blast
  have t: "token_ends '' Determining risks''"
    by (simp add: is_digit_def ord_def)
  have e: "extract_section_num ''6.1.2 Determining risks'' = Some ''6.1.2''"
    using extract_section_num_token [OF section_number_612 t] by simp
  have f: "\<forall>r \<in> set (snd (process_chunk i chunk rc cc dn)).
              map_of r ''article_number'' = Some (JStr (section_num_of chunk))
            \<and> map_of r ''article_text'' = Some (JStr (page_content chunk))"
    using process_chunk_fields by blast
  have g: "\<forall>r \<in> set (extract_segment dn rc cc i chunk).
              article_number r = section_num_of chunk \<and> article_text r = page_content chunk"
    using extract_segment_fields by blast
  from a b c d e f g show ?thesis
    by (intro conjI)
qed


theorem article_number_from_segment_id_witness:
  "section_id (hd example_chunks) = Some ''6.1.2 Determining risks''
   \<and> extract_section_num ''6.1.2 Determining risks'' = Some ''6.1.2''
   \<and> map article_number
        (extract_segment ''Doc'' example_req_chain example_ctrl_chain 0 (hd example_chunks))
       = [''6.1.2'']"
proof -
  let ?ch = "hd example_chunks"
  let ?out = "extract_segment ''Doc'' example_req_chain example_ctrl_chain 0 ?ch"
  have sid: "section_id ?ch = Some ''6.1.2 Determining risks''"
    by code_simp
  have len: "length ?out = 1"
    by code_simp
  then obtain r where r: "?out = [r]"
    by (cases ?out) auto
  note t = article_number_from_segment_id [OF refl, of ?ch 0 example_req_chain example_ctrl_chain "''Doc''"]
  from t have num: "extract_section_num ''6.1.2 Determining risks'' = Some ''6.1.2''"
    by blast
  from t have sn: "section_num_of ?ch = ''6.1.2''"
    by (simp add: sid num)
  from t have "\<forall>x \<in> set ?out. article_number x = section_num_of ?ch"
    by blast
  with r sn have "article_number r = ''6.1.2''"
    by simp
  with r sid num show ?thesis
    by simp
qed

section \<open>The order of the returned requirements\<close>

lemma len_ex: "length example_chunks = 3"
  by (simp add: example_chunks_def label_chunks_def)

text \<open>
  C1. Whatever the order in which the workers finish (every index once), the orchestrator
  returns the requirements of segment 0, then those of segment 1, and so on: the
  concatenation of the per-segment requirement lists in ascending ordinal order. Two runs
  that differ in the completion order only return the same list.
\<close>

theorem requirement_order_independent:
  assumes "distinct order" and "set order = {0..<length chunks}"
    and "distinct order'" and "set order' = {0..<length chunks}"
  shows "fst (orchestrate_compliance_analysis dn chunks rc cc order)
           = concat (map (\<lambda>i. extract_segment dn rc cc i (chunks ! i)) [0..<length chunks])
       \<and> fst (orchestrate_compliance_analysis dn chunks rc cc order)
           = fst (orchestrate_compliance_analysis dn chunks rc cc order')"
  using orchestrate_value [OF assms(1,2)] orchestrate_value [OF assms(3,4)]
  by simp

theorem requirement_order_independent_witness:
  "distinct [2, 0, 1 :: nat] \<and> set [2, 0, 1 :: nat] = {0..<length example_chunks}
   \<and> fst (orchestrate_compliance_analysis ''Doc'' example_chunks example_req_chain
            example_ctrl_chain [2, 0, 1])
       = fst (orchestrate_compliance_analysis ''Doc'' example_chunks example_req_chain
            example_ctrl_chain [0, 1, 2])"
proof -
  have d1: "distinct [2, 0, 1 :: nat]" and d2: "distinct [0, 1, 2 :: nat]"
    by simp_all
  have s1: "set [2, 0, 1 :: nat] = {0..<length example_chunks}"
    and s2: "set [0, 1, 2 :: nat] = {0..<length example_chunks}"
    by (auto simp: len_ex)
  have "fst (orchestrate_compliance_analysis ''Doc'' example_chunks example_req_chain
               example_ctrl_chain [2, 0, 1])
          = fst (orchestrate_compliance_analysis ''Doc'' example_chunks example_req_chain
               example_ctrl_chain [0, 1, 2])"
    using requirement_order_independent [OF d1 s1 d2 s2] by (rule conjunct2)
  with d1 s1 show ?thesis
    by (intro conjI)
qed

section \<open>The return value and the last checkpoint\<close>

lemma validate_all_all_valid:
  "list_all (\<lambda>d. model_validate d \<noteq> None) ds
     \<Longrightarrow> map Some (validate_all ds) = map model_validate ds"
  by (induction ds) (auto simp: validate_all_def)

lemma script_value:
  assumes "distinct order" "set order = {0..<length chunks}" "chunks \<noteq> []"
  shows "orchestrate_compliance_analysis_script dn chunks rc cc order
           = (flatten (results (run_pool dn chunks rc cc order)),
              Some (flatten (results (run_pool dn chunks rc cc order))))"
  using checkpoint_value [OF assms, of dn rc cc]
  by (simp add: orchestrate_compliance_analysis_script_def orchestrate_compliance_analysis_def
      Let_def)

text \<open>
  C3, as the specification states it: the return value is identical to the last checkpoint.
  The checkpoint holds the records as the workers emitted them; the return value is built
  by validating each of them and skipping those that fail. Here the service reports records
  without a priority: the last checkpoint holds three records and the return value none.
\<close>

theorem return_value_drops_invalid_records:
  "fst (orchestrate_compliance_analysis ''Doc'' example_chunks sloppy_req_chain
          example_ctrl_chain [0, 1, 2]) = []
   \<and> map_option length (snd (orchestrate_compliance_analysis ''Doc'' example_chunks
          sloppy_req_chain example_ctrl_chain [0, 1, 2])) = Some 3"
  by code_simp

text \<open>
  C3, amended. When at least one segment exists and all workers have finished, the return
  value is the last checkpoint with every record validated as a requirement and the
  records that fail validation left out, in the same order; when every record of the
  checkpoint validates, the two correspond record by record. The one-file script
  compliance_agent.py returns the last checkpoint as it is.
\<close>

theorem return_value_validates_last_checkpoint:
  assumes "distinct order" and "set order = {0..<length chunks}" and "chunks \<noteq> []"
  shows "\<exists>snapshot.
           snd (orchestrate_compliance_analysis dn chunks rc cc order) = Some snapshot
         \<and> fst (orchestrate_compliance_analysis dn chunks rc cc order) = validate_all snapshot
         \<and> (list_all (\<lambda>d. model_validate d \<noteq> None) snapshot \<longrightarrow>
               map Some (fst (orchestrate_compliance_analysis dn chunks rc cc order))
                 = map model_validate snapshot)
         \<and> orchestrate_compliance_analysis_script dn chunks rc cc order
             = (snapshot, Some snapshot)"
proof -
  let ?snapshot = "flatten (results (run_pool dn chunks rc cc order))"
  have a: "snd (orchestrate_compliance_analysis dn chunks rc cc order) = Some ?snapshot"
    by (rule checkpoint_value [OF assms])
  have b: "fst (orchestrate_compliance_analysis dn chunks rc cc order) = validate_all ?snapshot"
    by (simp add: orchestrate_value [OF assms(1,2)] flatten_value [OF assms(1,2)]
        validate_all_concat extract_segment_def comp_def)
  have c: "list_all (\<lambda>d. model_validate d \<noteq> None) ?snapshot \<longrightarrow>
             map Some (fst (orchestrate_compliance_analysis dn chunks rc cc order))
               = map model_validate ?snapshot"
    unfolding b using validate_all_all_valid by blast
  from a b c script_value [OF assms] show ?thesis
    by blast
qed

theorem return_value_validates_last_checkpoint_witness:
  "distinct [2, 0, 1 :: nat] \<and> set [2, 0, 1 :: nat] = {0..<length example_chunks}
   \<and> example_chunks \<noteq> []
   \<and> map_option validate_all
        (snd (orchestrate_compliance_analysis ''Doc'' example_chunks example_req_chain
                example_ctrl_chain [2, 0, 1]))
       = Some (fst (orchestrate_compliance_analysis ''Doc'' example_chunks example_req_chain
                example_ctrl_chain [2, 0, 1]))"
proof -
  have d: "distinct [2, 0, 1 :: nat]"
    by simp
  have s: "set [2, 0, 1 :: nat] = {0..<length example_chunks}"
    by (auto simp: len_ex)
  have n: "example_chunks \<noteq> []"
    using len_ex by auto
  from return_value_validates_last_checkpoint [OF d s n, of "''Doc''" example_req_chain
      example_ctrl_chain]
  have "map_option validate_all
        (snd (orchestrate_compliance_analysis ''Doc'' example_chunks example_req_chain
                example_ctrl_chain [2, 0, 1]))
       = Some (fst (orchestrate_compliance_analysis ''Doc'' example_chunks example_req_chain
                example_ctrl_chain [2, 0, 1]))"
    by auto
  with d s n show ?thesis
    by (intro conjI)
qed

section \<open>Failing inference calls\<close>

lemma requirement_failure_is_empty:
  assumes "rc (dn, section_num_of chunk, page_content chunk) = Raises e
         \<or> (\<exists>j. rc (dn, section_num_of chunk, page_content chunk) = Returns j
                 \<and> (\<forall>items. j \<noteq> JList items))"
  shows "extract_requirements_from_chunk rc chunk dn = []"
    and "process_chunk i chunk rc cc dn = (i, [])"
  using assms
  by (auto simp: extract_requirements_from_chunk_def process_chunk_def split: json.splits)

lemma control_failure_is_empty:
  assumes "cc (case map_of req ''requirement'' of Some v \<Rightarrow> v | None \<Rightarrow> JStr []) = Raises e
         \<or> (\<exists>j. cc (case map_of req ''requirement'' of Some v \<Rightarrow> v | None \<Rightarrow> JStr []) = Returns j
                 \<and> (\<forall>items. j \<noteq> JList items))"
  shows "extract_controls_for_requirement cc req = []"
  using assms
  by (auto simp: extract_controls_for_requirement_def split: json.splits)

text \<open>
  C5. A failing inference call gives the empty list for its scope (the two lemmas above),
  and the other segments are not affected. The claim that no such failure fails the task
  does not hold on the asynchronous path: when the discovery call fails for the only
  segment, the pipeline returns the empty list, \<open>result[0]\<close> in process_pdf_analysis
  raises IndexError and the task is marked failed. The synchronous path completes on the
  same result.
\<close>

theorem failed_inference_fails_task:
  "fst (orchestrate_compliance_analysis ''Doc''
          (label_chunks ''GENERAL'' [piece ''The organization shall comply.''])
          failing_req_chain example_ctrl_chain [0]) = []
   \<and> map_option status
        (tasks (finish_analysis
                  (example_env (Inr (fst (orchestrate_compliance_analysis ''Doc''
                      (label_chunks ''GENERAL'' [piece ''The organization shall comply.''])
                      failing_req_chain example_ctrl_chain [0]))))
                  ''t1'' ''temp_t1.pdf'' ''big.pdf'' (example_state ''processing'')) ''t1'')
       = Some ''failed''
   \<and> map_option message
        (tasks (finish_analysis
                  (example_env (Inr (fst (orchestrate_compliance_analysis ''Doc''
                      (label_chunks ''GENERAL'' [piece ''The organization shall comply.''])
                      failing_req_chain example_ctrl_chain [0]))))
                  ''t1'' ''temp_t1.pdf'' ''big.pdf'' (example_state ''processing'')) ''t1'')
       = Some (Some ''Analysis failed: list index out of range'')
   \<and> fst (analyze_pdf
            (example_env (Inr (fst (orchestrate_compliance_analysis ''Doc''
                (label_chunks ''GENERAL'' [piece ''The organization shall comply.''])
                failing_req_chain example_ctrl_chain [0]))))
            (example_upload ''small.pdf'' 3) (example_state ''processing''))
       = Inr (Completed ''Analysis completed for small.pdf'' (sync_result 20 ''small.pdf'' []))"
proof -
  have o: "fst (orchestrate_compliance_analysis ''Doc''
          (label_chunks ''GENERAL'' [piece ''The organization shall comply.''])
          failing_req_chain example_ctrl_chain [0]) = []"
    by code_simp
  have n: "endswith (lower ''small.pdf'') ''.pdf''"
    by code_simp
  show ?thesis
    unfolding o using n
    by (simp add: finish_analysis_def example_env_def async_result_def mark_failed_def
        remove_file_def example_state_def example_store_def example_task_def Let_def
        analyze_pdf_def example_upload_def)
qed

section \<open>Segment labels\<close>
















end
